theory Spec2Isabelle
  imports Complex_Main "HOL-Library.Code_Target_Nat"
begin

section \<open>JavaScript strings\<close>

text \<open>
  A JavaScript string is a sequence of UTF-16 code units, and \<open>length\<close>, indexing, regular
  expressions without the \<open>u\<close> flag, \<open>includes\<close> and \<open>===\<close> all work on code units. A code
  unit is modelled by its number; the numbers below 65536 are the code units of a real string,
  and every theorem over all lists holds for them in particular. \<open>str\<close> turns a literal of the
  source (all of them ASCII) into its code units.
\<close>

type_synonym codeunit = nat
type_synonym jsstring = "codeunit list"

definition str :: "string \<Rightarrow> jsstring" where
  "str = map of_char"

text \<open>\<open>s.startsWith(p)\<close> and \<open>s.includes(sub)\<close>.\<close>

fun startsWith :: "jsstring \<Rightarrow> jsstring \<Rightarrow> bool" where
  "startsWith s [] = True"
| "startsWith [] (p # ps) = False"
| "startsWith (c # s) (p # ps) = (c = p \<and> startsWith s ps)"

fun includes_str :: "jsstring \<Rightarrow> jsstring \<Rightarrow> bool" where
  "includes_str [] sub = (sub = [])"
| "includes_str (c # s) sub = (startsWith (c # s) sub \<or> includes_str s sub)"

text \<open>
  \<open>toUpperCase\<close> and \<open>toLowerCase\<close>, on the ASCII letters. The source applies \<open>toUpperCase\<close>
  to matches of \<open>/PS\d{6,}/gi\<close> only, which consist of the letters p, s and digits, so it is
  exact there; \<open>toLowerCase\<close> fills the \<open>lowercase\<close> field of a sanitized message, which is exact
  for ASCII text and which no statement below depends on.
\<close>

definition toUpperUnit :: "codeunit \<Rightarrow> codeunit" where
  "toUpperUnit c = (if 97 \<le> c \<and> c \<le> 122 then c - 32 else c)"

definition toLowerUnit :: "codeunit \<Rightarrow> codeunit" where
  "toLowerUnit c = (if 65 \<le> c \<and> c \<le> 90 then c + 32 else c)"

definition toUpperCase :: "jsstring \<Rightarrow> jsstring" where
  "toUpperCase = map toUpperUnit"

definition toLowerCase :: "jsstring \<Rightarrow> jsstring" where
  "toLowerCase = map toLowerUnit"

text \<open>\<open>[...new Set(xs)]\<close>: the first occurrence of every element, in order of insertion.\<close>

definition uniq :: "'a list \<Rightarrow> 'a list" where
  "uniq xs = rev (remdups (rev xs))"

text \<open>\<open>tokens.join(' ')\<close>.\<close>

fun join :: "jsstring \<Rightarrow> jsstring list \<Rightarrow> jsstring" where
  "join sep [] = []"
| "join sep [t] = t"
| "join sep (t # u # ts) = t @ sep @ join sep (u # ts)"

section \<open>The regular expressions of the source\<close>

text \<open>
  Every regular expression literal of the source is an alternation of sequences of quantified
  character classes: \<open>PS\d{6,}\<close>, \<open>[A-Z]{1,3}\d{3,4}[A-Z]{0,2}\d+[A-Z]?\d*\<close>, \<open>\s+\<close>,
  \<open>install|setup|assemble|attach|how to\<close>. A class is a list of inclusive code unit ranges; an
  item is a class with its least and greatest number of repetitions (\<open>None\<close>: unbounded); a
  capturing group around the whole pattern changes nothing that the source reads.

  With the \<open>i\<close> flag and no \<open>u\<close> flag a code unit is in a class when its canonical form
  (\<open>toUpperCase\<close>, unless that leaves ASCII or has several code units) is the canonical form of
  a member. All classes here are ASCII, and no code unit from 128 on canonicalizes into ASCII,
  so a code unit is in the class iff itself or its ASCII case variant is a member.
\<close>

type_synonym charclass = "(codeunit \<times> codeunit) list"
type_synonym item = "charclass \<times> nat \<times> nat option"

datatype regex = Regex (ignoreCase: bool) (alternatives: "item list list")

definition member :: "charclass \<Rightarrow> codeunit \<Rightarrow> bool" where
  "member cl c = list_ex (\<lambda>(a, b). a \<le> c \<and> c \<le> b) cl"

definition inClass :: "bool \<Rightarrow> charclass \<Rightarrow> codeunit \<Rightarrow> bool" where
  "inClass ic cl c =
     (member cl c \<or> (ic \<and> (member cl (toUpperUnit c) \<or> member cl (toLowerUnit c))))"

fun firstSome :: "'a option list \<Rightarrow> 'a option" where
  "firstSome [] = None"
| "firstSome (None # xs) = firstSome xs"
| "firstSome (Some x # xs) = Some x"

text \<open>
  The backtracking matcher at one position: the length of the match that the engine finds
  first. A quantifier is greedy: it takes the longest run of the class (at most its upper
  bound), and gives back one code unit at a time, down to its lower bound, until the rest of
  the sequence matches.
\<close>

fun matchItems :: "bool \<Rightarrow> item list \<Rightarrow> jsstring \<Rightarrow> nat option" where
  "matchItems ic [] s = Some 0"
| "matchItems ic ((cl, lo, hi) # its) s =
     (let n = length (takeWhile (inClass ic cl) s);
          m = (case hi of None \<Rightarrow> n | Some h \<Rightarrow> min h n)
      in firstSome (map (\<lambda>k. map_option (\<lambda>r. k + r) (matchItems ic its (drop k s)))
                        (rev [lo..<Suc m])))"

text \<open>Alternatives are tried from left to right.\<close>

definition matchHere :: "regex \<Rightarrow> jsstring \<Rightarrow> nat option" where
  "matchHere r s = firstSome (map (\<lambda>its. matchItems (ignoreCase r) its s) (alternatives r))"

text \<open>
  \<open>r.test(s)\<close> for a regular expression without the \<open>g\<close> flag (no \<open>lastIndex\<close> state):
  is there a match at some position, the end of the string included.
\<close>

fun test :: "regex \<Rightarrow> jsstring \<Rightarrow> bool" where
  "test r [] = (matchHere r [] \<noteq> None)"
| "test r (c # s) = (matchHere r (c # s) \<noteq> None \<or> test r s)"

text \<open>
  \<open>s.match(r)\<close> for \<open>r\<close> with the \<open>g\<close> flag: all matches from left to right, each search
  starting where the last match ended (one code unit further after an empty match), and
  \<open>null\<close> when there is none. The counter is the number of code units still covered by the
  last match.
\<close>

fun matchAll :: "regex \<Rightarrow> nat \<Rightarrow> jsstring \<Rightarrow> jsstring list" where
  "matchAll r k [] = (if k = 0 \<and> matchHere r [] \<noteq> None then [[]] else [])"
| "matchAll r (Suc k) (c # s) = matchAll r k s"
| "matchAll r 0 (c # s) =
     (case matchHere r (c # s) of
        None \<Rightarrow> matchAll r 0 s
      | Some 0 \<Rightarrow> [] # matchAll r 0 s
      | Some (Suc n) \<Rightarrow> take (Suc n) (c # s) # matchAll r n s)"

definition match_g :: "regex \<Rightarrow> jsstring \<Rightarrow> jsstring list option" where
  "match_g r s = (case matchAll r 0 s of [] \<Rightarrow> None | m # ms \<Rightarrow> Some (m # ms))"

text \<open>
  \<open>s.replace(r, f)\<close> for \<open>r\<close> with the \<open>g\<close> flag: every match is replaced by \<open>f\<close> of the
  matched text (a constant function for a replacement string without \<open>$\<close>).
\<close>

fun replaceAll :: "regex \<Rightarrow> (jsstring \<Rightarrow> jsstring) \<Rightarrow> nat \<Rightarrow> jsstring \<Rightarrow> jsstring" where
  "replaceAll r f k [] = (if k = 0 \<and> matchHere r [] \<noteq> None then f [] else [])"
| "replaceAll r f (Suc k) (c # s) = replaceAll r f k s"
| "replaceAll r f 0 (c # s) =
     (case matchHere r (c # s) of
        None \<Rightarrow> c # replaceAll r f 0 s
      | Some 0 \<Rightarrow> f [] @ c # replaceAll r f 0 s
      | Some (Suc n) \<Rightarrow> f (take (Suc n) (c # s)) @ replaceAll r f n s)"

definition replace_g :: "regex \<Rightarrow> (jsstring \<Rightarrow> jsstring) \<Rightarrow> jsstring \<Rightarrow> jsstring" where
  "replace_g r f s = replaceAll r f 0 s"

text \<open>
  \<open>s.split(r)\<close>: the pieces between the matches. The search for a separator starts after the
  current piece has begun; an empty match at the very start of a piece does not split, an empty
  match elsewhere does; the empty string gives one empty piece unless \<open>r\<close> matches it. The
  second argument is the piece read so far, the third the code units still covered by the last
  separator.
\<close>

fun splitAux :: "regex \<Rightarrow> jsstring \<Rightarrow> nat \<Rightarrow> jsstring \<Rightarrow> jsstring list" where
  "splitAux r cur k [] = [cur]"
| "splitAux r cur (Suc k) (c # s) = splitAux r cur k s"
| "splitAux r cur 0 (c # s) =
     (case matchHere r (c # s) of
        None \<Rightarrow> splitAux r (cur @ [c]) 0 s
      | Some 0 \<Rightarrow> (if cur = [] then splitAux r [c] 0 s else cur # splitAux r [c] 0 s)
      | Some (Suc n) \<Rightarrow> cur # splitAux r [] n s)"

definition split :: "regex \<Rightarrow> jsstring \<Rightarrow> jsstring list" where
  "split r s = (if s = [] then (if matchHere r [] \<noteq> None then [] else [[]])
                else splitAux r [] 0 s)"

text \<open>The classes and patterns.\<close>

definition digit :: charclass where
  "digit = [(48, 57)]"

definition upperAZ :: charclass where
  "upperAZ = [(65, 90)]"

text \<open>
  \<open>\s\<close>: the WhiteSpace and LineTerminator code points of ECMAScript (tab, LF, VT, FF, CR,
  space, U+00A0, U+1680, U+2000 to U+200A, U+2028, U+2029, U+202F, U+205F, U+3000, U+FEFF).
\<close>

definition whitespace :: charclass where
  "whitespace = [(9, 13), (32, 32), (160, 160), (5760, 5760), (8192, 8202), (8232, 8233),
                 (8239, 8239), (8287, 8287), (12288, 12288), (65279, 65279)]"

definition one :: "charclass \<Rightarrow> item" where
  "one cl = (cl, 1, Some 1)"

definition lit :: "string \<Rightarrow> item list" where
  "lit w = map (\<lambda>c. one [(of_char c, of_char c)]) w"

text \<open>\<open>/\s+/\<close> and \<open>/\s+/g\<close>.\<close>

definition WS_PLUS :: regex where
  "WS_PLUS = Regex False [[(whitespace, 1, None)]]"

text \<open>
  \<open>CONSTANTS.PATTERNS.PART_NUMBER = /PS\d{6,}/i\<close>; \<open>extractEntities\<close> writes the same pattern
  as \<open>/PS\d{6,}/gi\<close>.
\<close>

definition PART_NUMBER :: regex where
  "PART_NUMBER = Regex True [lit ''PS'' @ [(digit, 6, None)]]"

definition modelItems :: "item list" where
  "modelItems = [(upperAZ, 1, Some 3), (digit, 3, Some 4), (upperAZ, 0, Some 2),
                 (digit, 1, None), (upperAZ, 0, Some 1), (digit, 0, None)]"

text \<open>\<open>CONSTANTS.PATTERNS.MODEL_NUMBER = /([A-Z]{1,3}\d{3,4}[A-Z]{0,2}\d+[A-Z]?\d*)/i\<close>.\<close>

definition MODEL_NUMBER :: regex where
  "MODEL_NUMBER = Regex True [modelItems]"

text \<open>
  The pattern of \<open>extractEntities\<close> and \<open>extractModelNumber\<close>,
  \<open>/([A-Z]{1,3}\d{3,4}[A-Z]{0,2}\d+[A-Z]?\d*)/g\<close>: the same items, case-sensitive.
\<close>

definition modelPattern :: regex where
  "modelPattern = Regex False [modelItems]"

section \<open>utils/sanitizers.js\<close>

datatype jsvalue = JUndefined | JNull | JBoolean bool | JNumber int | JString jsstring | JObject

datatype error = InvalidInput

record SanitizedMessage =
  original :: jsstring
  cleaned :: jsstring
  sanitized :: jsstring
  lowercase :: jsstring

text \<open>
  The replacement function of \<open>encodeHtmlEntities\<close>, \<open>(char) => htmlEscapeMap[char]\<close>; a
  key that is not in the object gives \<open>undefined\<close>, which \<open>replace\<close> writes out.
\<close>

definition htmlEscapeMap :: "jsstring \<Rightarrow> jsstring" where
  "htmlEscapeMap ch =
     (if ch = str ''&'' then str ''&amp;''
      else if ch = str ''<'' then str ''&lt;''
      else if ch = str ''>'' then str ''&gt;''
      else if ch = [34] then str ''&quot;''
      else if ch = [39] then str ''&#39;''
      else if ch = str ''/'' then str ''&#x2F;''
      else str ''undefined'')"

text \<open>\<open>str.replace(/[&<>"'/]/g, (char) => htmlEscapeMap[char])\<close>.\<close>

definition encodeHtmlEntities :: "jsstring \<Rightarrow> jsstring" where
  "encodeHtmlEntities s =
     replace_g (Regex False [[one [(38, 38), (60, 60), (62, 62), (34, 34), (39, 39), (47, 47)]]])
       htmlEscapeMap s"

text \<open>\<open>str.trim()\<close> strips the code units of \<open>\s\<close> from both ends.\<close>

definition trim :: "jsstring \<Rightarrow> jsstring" where
  "trim s = rev (dropWhile (member whitespace) (rev (dropWhile (member whitespace) s)))"

definition trimWhitespace :: "jsstring \<Rightarrow> jsstring" where
  "trimWhitespace s = trim s"

text \<open>\<open>str.replace(/\s+/g, ' ').trim()\<close>.\<close>

definition normalizeWhitespace :: "jsstring \<Rightarrow> jsstring" where
  "normalizeWhitespace s = trim (replace_g WS_PLUS (\<lambda>_. str '' '') s)"

definition toLowercase :: "jsstring \<Rightarrow> jsstring" where
  "toLowercase s = toLowerCase s"

text \<open>\<open>str.replace(/[\x00-\x08\x0B-\x0C\x0E-\x1F\x7F]/g, '')\<close>.\<close>

definition controlCharacters :: charclass where
  "controlCharacters = [(0, 8), (11, 12), (14, 31), (127, 127)]"

definition removeControlCharacters :: "jsstring \<Rightarrow> jsstring" where
  "removeControlCharacters s = replace_g (Regex False [[one controlCharacters]]) (\<lambda>_. []) s"

text \<open>
  \<open>sanitizeMessage\<close> takes any JavaScript value; \<open>throw new Error('Message must be a string')\<close>
  is the error \<open>InvalidInput\<close>.
\<close>

fun sanitizeMessage :: "jsvalue \<Rightarrow> error + SanitizedMessage" where
  "sanitizeMessage (JString message) =
     (let cleaned1 = removeControlCharacters message;
          cleaned2 = trimWhitespace cleaned1;
          cleaned3 = normalizeWhitespace cleaned2;
          htmlEncoded = encodeHtmlEntities cleaned3;
          lowercase = toLowercase cleaned3
      in Inr \<lparr>original = message, cleaned = cleaned3, sanitized = htmlEncoded,
              lowercase = lowercase\<rparr>)"
| "sanitizeMessage _ = Inl InvalidInput"

record EntitySet =
  partNumbers :: "jsstring list"
  modelNumbers :: "jsstring list"

definition extractEntities :: "jsstring \<Rightarrow> EntitySet" where
  "extractEntities message =
     (let partNumbers =
            (case match_g PART_NUMBER message of
               None \<Rightarrow> []
             | Some partMatches \<Rightarrow> map toUpperCase partMatches);
          modelNumbers =
            (case match_g modelPattern message of
               None \<Rightarrow> []
             | Some modelMatches \<Rightarrow> filter (\<lambda>m. \<not> startsWith m (str ''PS'')) modelMatches)
      in \<lparr>partNumbers = uniq partNumbers, modelNumbers = uniq modelNumbers\<rparr>)"

section \<open>config/constants.js\<close>

text \<open>
  Strings that only name an intent, a category, an appliance type or a reason, and are never
  compared with message text, are written as plain literals.
\<close>

definition IN_SCOPE_KEYWORDS :: "jsstring list" where
  "IN_SCOPE_KEYWORDS = map str
     [''part'', ''parts'', ''component'', ''components'', ''replacement'', ''repair'', ''fix'',
      ''broken'', ''install'', ''installation'', ''setup'', ''assemble'', ''compatible'',
      ''compatibility'', ''work with'', ''fit'', ''problem'', ''issue'', ''not working'',
      ''damaged'', ''replace'',
      ''refrigerator'', ''refrigerators'', ''fridge'', ''fridges'', ''dishwasher'',
      ''dishwashers'',
      ''water valve'', ''filter'', ''compressor'', ''thermostat'', ''fan'', ''motor'', ''seal'',
      ''gasket'', ''hinge'', ''handle'', ''shelf'', ''drawer'', ''ice maker'', ''dispenser'',
      ''heating element'', ''pump'', ''spray arm'', ''door'', ''latch'',
      ''leaking'', ''leak'', ''freeze'', ''frozen'', ''clogged'', ''clog'', ''noise'', ''noisy'',
      [CHR ''w'', CHR ''o'', CHR ''n'', CHR 0x27, CHR ''t''], ''not working'', ''stopped'',
      ''error'', ''malfunction'',
      ''buy'', ''purchase'', ''need'', ''have'', ''looking for'', ''find'', ''search'',
      ''what about'', ''how'', ''where'', ''can i'',
      ''order'', ''price'', ''cost'', ''cart'', ''checkout'', ''buy'']"

definition OUT_OF_SCOPE_KEYWORDS :: "jsstring list" where
  "OUT_OF_SCOPE_KEYWORDS = map str
     [''weather'', ''stock market'', ''recipe'', ''cooking'', ''politics'', ''sports'', ''news'',
      ''movie'', ''book'', ''music'', ''travel'', ''hotel'', ''flight'', ''restaurant'', ''joke'',
      ''laugh'', ''funny'']"

text \<open>\<open>CONSTANTS.INTENT_KEYWORDS\<close>: an object, its keys in the order of the literal.\<close>

definition INTENT_KEYWORDS :: "(string \<times> jsstring list) list" where
  "INTENT_KEYWORDS =
     [(''product_search'', map str
         [''need'', ''looking for'', ''find me'', ''do you have'', ''i want'', ''show me'',
          ''where can i get'', ''what is'', ''tell me about'']),
      (''compatibility_check'', map str
         [''compatible'', ''compatible with'', ''fit'', ''work with'', ''support'', ''fit my'',
          ''for my'', ''match'']),
      (''installation_guide'', map str
         [''install'', ''how to'', ''setup'', ''assemble'', ''attach'', ''how do i'',
          ''help me install'', ''steps'']),
      (''troubleshooting'', map str
         [''broken'', ''not working'', ''fix'', ''repair'', ''problem'', ''issue'',
          [CHR ''w'', CHR ''h'', CHR ''a'', CHR ''t'', CHR 0x27, CHR ''s'', CHR '' '',
           CHR ''w'', CHR ''r'', CHR ''o'', CHR ''n'', CHR ''g''],
          ''stopped'', ''leaking'', [CHR ''w'', CHR ''o'', CHR ''n'', CHR 0x27, CHR ''t'']]),
      (''order_support'', map str
         [''order'', ''price'', ''cost'', ''buy'', ''cart'', ''checkout'',
          [CHR ''w'', CHR ''h'', CHR ''e'', CHR ''r'', CHR ''e'', CHR 0x27, CHR ''s'', CHR '' '',
           CHR ''m'', CHR ''y''],
          ''tracking''])]"

text \<open>
  \<open>CONSTANTS.INTENT_KEYWORDS[intent]\<close>; a key that is absent gives \<open>undefined\<close>, which the
  default parameter of \<open>findMatchingKeywords\<close> turns into the empty list.
\<close>

definition keywordsOf :: "string \<Rightarrow> jsstring list" where
  "keywordsOf intent = (case map_of INTENT_KEYWORDS intent of None \<Rightarrow> [] | Some kws \<Rightarrow> kws)"

section \<open>services/scopeDetectionService.js\<close>

text \<open>
  The scores are small whole numbers. A confidence is a double in the source; it is modelled
  by the rational number that the double rounds: the literals 1.0, 0.5, 0.95, 0.99, 0.3 and the
  quotient of a score by 100.
\<close>

record ScopeScore =
  scoreInScope :: nat
  scoreOutOfScope :: nat
  scorePatterns :: nat

record ScopeResult =
  inScope :: bool
  confidence :: rat
  reason :: string
  category :: string
  score :: ScopeScore

definition calculateInScopeScore :: "jsstring list \<Rightarrow> nat" where
  "calculateInScopeScore tokens =
     min (fold (\<lambda>token score.
            (let inScopeKeywords = IN_SCOPE_KEYWORDS;
                 score1 = (if token \<in> set inScopeKeywords then score + 10 else score)
             in if list_ex (\<lambda>keyword. includes_str keyword token \<or> includes_str token keyword)
                     inScopeKeywords
                then score1 + 3 else score1))
          tokens 0) 100"

definition calculateOutOfScopeScore :: "jsstring list \<Rightarrow> nat" where
  "calculateOutOfScopeScore tokens =
     min (fold (\<lambda>token score.
            (let outOfScopeKeywords = OUT_OF_SCOPE_KEYWORDS;
                 score1 = (if token \<in> set outOfScopeKeywords then score + 15 else score)
             in if list_ex (\<lambda>keyword. includes_str keyword token \<or> includes_str token keyword)
                     outOfScopeKeywords
                then score1 + 5 else score1))
          tokens 0) 100"

definition detectPatterns :: "jsstring \<Rightarrow> nat" where
  "detectPatterns message =
     (let score0 = 0;
          score1 = (if test PART_NUMBER message then score0 + 40 else score0);
          score2 = (if test MODEL_NUMBER message then score1 + 30 else score1);
          score3 = (if test (Regex True [lit ''refrigerator'', lit ''fridge'', lit ''dishwasher''])
                         message
                    then score2 + 20 else score2)
      in min score3 100)"

definition categorizeInScopeMessage :: "jsstring list \<Rightarrow> string" where
  "categorizeInScopeMessage tokens =
     (let message = join (str '' '') tokens
      in if test (Regex True [lit ''install'', lit ''setup'', lit ''assemble'', lit ''attach'',
                              lit ''how to'']) message
         then ''installation_inquiry''
         else if test (Regex True [lit ''compatible'', lit ''fit'', lit ''work with'',
                                   lit ''support'', lit ''match'']) message
         then ''compatibility_check''
         else if test (Regex True [lit ''broken'', lit ''not working'', lit ''fix'',
                                   lit ''repair'', lit ''problem'', lit ''issue'', lit ''leak'',
                                   lit ''freeze'', lit ''noise'']) message
         then ''troubleshooting_inquiry''
         else if test (Regex True [lit ''order'', lit ''price'', lit ''cost'', lit ''buy'',
                                   lit ''cart'', lit ''checkout'', lit ''shipping'']) message
         then ''order_support''
         else ''parts_inquiry'')"

text \<open>
  \<open>detectScope\<close> on a string; the value is the one the returned promise resolves to. Nothing
  in the \<open>try\<close> block throws for a string, so the \<open>catch\<close> branch is not reached.
\<close>

definition detectScope :: "jsstring \<Rightarrow> ScopeResult" where
  "detectScope message =
     (let tokens = split WS_PLUS message;
          inScopeScore = calculateInScopeScore tokens;
          outOfScopeScore = calculateOutOfScopeScore tokens;
          patternScore = detectPatterns message;
          hasPartNumber = test PART_NUMBER message;
          hasModelNumber = test MODEL_NUMBER message
      in if hasPartNumber \<or> hasModelNumber then
           \<lparr>inScope = True, confidence = 1,
            reason = ''Explicit part or model number pattern detected'',
            category = ''parts_inquiry'',
            score = \<lparr>scoreInScope = 100, scoreOutOfScope = 0, scorePatterns = 100\<rparr>\<rparr>
         else if outOfScopeScore > inScopeScore + 20 then
           \<lparr>inScope = False, confidence = min (95 / 100) (of_nat outOfScopeScore / 100),
            reason = ''Message contains out-of-scope keywords'',
            category = ''out_of_scope'',
            score = \<lparr>scoreInScope = inScopeScore, scoreOutOfScope = outOfScopeScore,
                     scorePatterns = patternScore\<rparr>\<rparr>
         else if inScopeScore > outOfScopeScore + 10 then
           \<lparr>inScope = True, confidence = min (95 / 100) (of_nat inScopeScore / 100),
            reason = ''Message contains relevant keywords'',
            category = categorizeInScopeMessage tokens,
            score = \<lparr>scoreInScope = inScopeScore, scoreOutOfScope = outOfScopeScore,
                     scorePatterns = patternScore\<rparr>\<rparr>
         else
           \<lparr>inScope = True, confidence = 1 / 2,
            reason = ''Message appears to be parts-related'',
            category = ''general_inquiry'',
            score = \<lparr>scoreInScope = inScopeScore, scoreOutOfScope = outOfScopeScore,
                     scorePatterns = patternScore\<rparr>\<rparr>)"

section \<open>The intent classification service\<close>

record Context =
  partNumber :: "jsstring option"
  modelNumber :: "jsstring option"
  applianceType :: "string option"

record IntentResult =
  intent :: string
  intentConfidence :: rat
  keywordList :: "jsstring list"
  intentContext :: "Context option"
  scores :: "(string \<times> nat) list"

text \<open>
  The body of the two nested \<open>forEach\<close> loops of \<open>scoreIntent\<close>, for one token and one
  keyword, on the variables \<open>score\<close> (here \<open>acc\<close>) and \<open>matches\<close>.
\<close>

definition scoreStep :: "jsstring \<Rightarrow> jsstring \<Rightarrow> nat \<times> jsstring list \<Rightarrow> nat \<times> jsstring list" where
  "scoreStep token keyword st =
     (case st of (acc, matches) \<Rightarrow>
        if token = keyword \<or> token = replace_g WS_PLUS (\<lambda>_. []) keyword
        then (acc + 15, matches @ [keyword])
        else if includes_str keyword token \<and> length token > 2
        then (acc + 5, matches @ [keyword])
        else (acc, matches))"

definition scoreIntent :: "jsstring list \<Rightarrow> jsstring list \<Rightarrow> nat" where
  "scoreIntent tokens intentKeywords =
     (case fold (\<lambda>token. fold (\<lambda>keyword. scoreStep token keyword) intentKeywords) tokens (0, [])
      of (acc, matches) \<Rightarrow>
        min (if length matches > 1 then acc + length matches * 5 else acc) 100)"

definition findMatchingKeywords :: "jsstring list \<Rightarrow> jsstring list \<Rightarrow> jsstring list" where
  "findMatchingKeywords tokens intentKeywords =
     fold (\<lambda>token. fold (\<lambda>keyword matches.
             if (token = keyword \<or> includes_str keyword token) \<and> keyword \<notin> set matches
             then matches @ [keyword] else matches) intentKeywords)
       tokens []"

definition detectApplianceType :: "jsstring \<Rightarrow> string option" where
  "detectApplianceType message =
     (if test (Regex True [lit ''refrigerator'', lit ''fridge'', lit ''ice maker'',
                           lit ''freezer'']) message
      then Some ''refrigerator''
      else if test (Regex True [lit ''dishwasher'', lit ''wash'', lit ''spray arm'',
                                lit ''filter'', lit ''rinse'']) message
      then Some ''dishwasher''
      else None)"

text \<open>
  \<open>xs.reduce(f)\<close> without an initial value starts from the first element and throws a
  TypeError on the empty array.
\<close>

fun reduce :: "('a \<Rightarrow> 'a \<Rightarrow> 'a) \<Rightarrow> 'a list \<Rightarrow> 'a option" where
  "reduce f [] = None"
| "reduce f (x # xs) = Some (foldl f x xs)"

text \<open>\<open>xs?.[0] || null\<close>: the first element unless it is missing or the empty string.\<close>

definition firstOrNull :: "jsstring list \<Rightarrow> jsstring option" where
  "firstOrNull xs = (case xs of [] \<Rightarrow> None | x # _ \<Rightarrow> if x = [] then None else Some x)"

text \<open>
  \<open>classifyIntent\<close> on a string; the value is the one the returned promise resolves to. The
  only exception the \<open>try\<close> block could raise for a string is that of \<open>reduce\<close>; it leads to
  the \<open>catch\<close> branch, whose result has empty \<open>context\<close> and \<open>scores\<close> objects.
\<close>

definition classifyIntent :: "jsstring \<Rightarrow> IntentResult" where
  "classifyIntent message =
     (let tokens = split WS_PLUS message;
          entities = extractEntities message;
          intentScores =
            [(''product_search'', scoreIntent tokens (keywordsOf ''product_search'')),
             (''compatibility_check'', scoreIntent tokens (keywordsOf ''compatibility_check'')),
             (''installation_guide'', scoreIntent tokens (keywordsOf ''installation_guide'')),
             (''troubleshooting'', scoreIntent tokens (keywordsOf ''troubleshooting'')),
             (''order_support'', scoreIntent tokens (keywordsOf ''order_support''))]
      in case reduce (\<lambda>prev current. if snd prev > snd current then prev else current) intentScores
         of None \<Rightarrow>
              \<lparr>intent = ''general_inquiry'', intentConfidence = 3 / 10, keywordList = [],
               intentContext = None, scores = []\<rparr>
          | Some topIntent \<Rightarrow>
              (let intent = fst topIntent;
                   score = snd topIntent;
                   confidence = min (of_nat score / 100) (99 / 100);
                   matchingKeywords = findMatchingKeywords tokens (keywordsOf intent);
                   context = \<lparr>partNumber = firstOrNull (partNumbers entities),
                              modelNumber = firstOrNull (modelNumbers entities),
                              applianceType = detectApplianceType message\<rparr>
               in \<lparr>intent = intent, intentConfidence = confidence,
                   keywordList = matchingKeywords,
                   intentContext = Some context, scores = intentScores\<rparr>))"

section \<open>Definitions used to state the properties\<close>

text \<open>
  What one token scores against one trigger phrase: 15 when the token is the phrase, or the
  phrase with its whitespace removed; otherwise 5 when the phrase contains the token and the
  token is longer than two code units; otherwise nothing.
\<close>

definition points :: "jsstring \<Rightarrow> jsstring \<Rightarrow> nat" where
  "points token keyword =
     (if token = keyword \<or> token = replace_g WS_PLUS (\<lambda>_. []) keyword then 15
      else if includes_str keyword token \<and> length token > 2 then 5
      else 0)"

text \<open>The sum of the points over all tokens and all trigger phrases.\<close>

definition tokenPoints :: "jsstring list \<Rightarrow> jsstring list \<Rightarrow> nat" where
  "tokenPoints tokens kws = sum_list (map (\<lambda>token. sum_list (map (points token) kws)) tokens)"

text \<open>
  The match events: for every token in turn, the trigger phrases it scored against, so a
  phrase matched by two tokens is listed twice.
\<close>

definition matchEvents :: "jsstring list \<Rightarrow> jsstring list \<Rightarrow> jsstring list" where
  "matchEvents tokens kws = concat (map (\<lambda>token. filter (\<lambda>keyword. 0 < points token keyword) kws) tokens)"

text \<open>The bonus for \<open>n\<close> matches: 5 for each of them when there is more than one.\<close>

definition bonus :: "nat \<Rightarrow> nat" where
  "bonus n = (if 1 < n then 5 * n else 0)"

text \<open>
  The score as the specification words it, with the bonus counted over the distinct trigger
  phrases that matched.
\<close>

definition claimedScore :: "jsstring list \<Rightarrow> jsstring list \<Rightarrow> nat" where
  "claimedScore tokens kws =
     min (tokenPoints tokens kws + bonus (length (remdups (matchEvents tokens kws)))) 100"

text \<open>
  The greatest score of a list of entries, the entries tied at it in the order of the list,
  and the first and the last of them; a list that is not empty has an entry at its greatest
  score, and the five intents always give such a list.
\<close>

fun topScore :: "(string \<times> nat) list \<Rightarrow> nat" where
  "topScore [] = 0"
| "topScore (e # es) = max (snd e) (topScore es)"

definition tiedAtTop :: "(string \<times> nat) list \<Rightarrow> (string \<times> nat) list" where
  "tiedAtTop es = filter (\<lambda>e. snd e = topScore es) es"

definition firstEncountered :: "(string \<times> nat) list \<Rightarrow> string" where
  "firstEncountered es = fst (hd (tiedAtTop es))"

definition lastEncountered :: "(string \<times> nat) list \<Rightarrow> string" where
  "lastEncountered es = fst (last (tiedAtTop es))"

text \<open>
  A string whose whitespace is collapsed: every whitespace code unit is a space, and no
  whitespace follows it.
\<close>

fun collapsed :: "jsstring \<Rightarrow> bool" where
  "collapsed [] = True"
| "collapsed [c] = (if member whitespace c then c = 32 else True)"
| "collapsed (c # d # s) =
     ((if member whitespace c then c = 32 \<and> \<not> member whitespace d else True) \<and> collapsed (d # s))"

section \<open>Facts about the matcher\<close>

lemma firstSome_None_iff: "firstSome xs = None \<longleftrightarrow> (\<forall>x \<in> set xs. x = None)"
  by (induction xs rule: firstSome.induct) auto

lemma matchItems_Cons_iff:
  "matchItems ic ((cl, lo, hi) # its) s \<noteq> None \<longleftrightarrow>
     (\<exists>k. lo \<le> k \<and> k \<le> length (takeWhile (inClass ic cl) s) \<and>
          (case hi of None \<Rightarrow> True | Some h \<Rightarrow> k \<le> h) \<and>
          matchItems ic its (drop k s) \<noteq> None)"
proof -
  define n where "n = length (takeWhile (inClass ic cl) s)"
  define m where "m = (case hi of None \<Rightarrow> n | Some h \<Rightarrow> min h n)"
  have bound: "k \<le> m \<longleftrightarrow> k \<le> n \<and> (case hi of None \<Rightarrow> True | Some h \<Rightarrow> k \<le> h)" for k
    by (cases hi) (auto simp: m_def)
  have "matchItems ic ((cl, lo, hi) # its) s \<noteq> None \<longleftrightarrow>
        (\<exists>k \<in> set (rev [lo..<Suc m]). matchItems ic its (drop k s) \<noteq> None)"
    unfolding m_def n_def by (simp add: firstSome_None_iff Let_def)
  also have "\<dots> \<longleftrightarrow> (\<exists>k. lo \<le> k \<and> k \<le> m \<and> matchItems ic its (drop k s) \<noteq> None)"
    by auto
  finally show ?thesis
    unfolding bound n_def by blast
qed

lemma test_iff: "test r s \<longleftrightarrow> (\<exists>k \<le> length s. matchHere r (drop k s) \<noteq> None)"
proof (induction s)
  case Nil
  then show ?case by simp
next
  case (Cons c s)
  have "(\<exists>k \<le> length (c # s). matchHere r (drop k (c # s)) \<noteq> None) \<longleftrightarrow>
        matchHere r (c # s) \<noteq> None \<or> (\<exists>k \<le> length s. matchHere r (drop k s) \<noteq> None)"
    (is "?L \<longleftrightarrow> ?A \<or> ?B")
  proof
    assume ?L
    then obtain k where k: "k \<le> length (c # s)" "matchHere r (drop k (c # s)) \<noteq> None" by blast
    show "?A \<or> ?B"
    proof (cases k)
      case 0
      with k show ?thesis by simp
    next
      case (Suc j)
      with k have "j \<le> length s" "matchHere r (drop j s) \<noteq> None" by simp_all
      then show ?thesis by blast
    qed
  next
    assume "?A \<or> ?B"
    then show ?L
    proof
      assume ?A
      then have "0 \<le> length (c # s) \<and> matchHere r (drop 0 (c # s)) \<noteq> None" by simp
      then show ?L by blast
    next
      assume ?B
      then obtain j where "j \<le> length s" "matchHere r (drop j s) \<noteq> None" by blast
      then have "Suc j \<le> length (c # s) \<and> matchHere r (drop (Suc j) (c # s)) \<noteq> None" by simp
      then show ?L by blast
    qed
  qed
  with Cons show ?case by simp
qed

lemma test_append: "matchHere r s \<noteq> None \<Longrightarrow> test r (a @ s)"
  by (induction a) (auto simp: test_iff intro: exI[of _ 0])

lemma matchAll_Nil_iff: "matchAll r 0 s = [] \<longleftrightarrow> \<not> test r s"
  by (induction s) (auto split: option.splits nat.splits)

lemma length_takeWhile_append_ge:
  "\<forall>x \<in> set xs. P x \<Longrightarrow> k \<le> length xs \<Longrightarrow> k \<le> length (takeWhile P (xs @ ys))"
  by (simp add: takeWhile_append2)

lemma matchItems_ConsI:
  "lo \<le> k \<Longrightarrow> k \<le> length (takeWhile (inClass ic cl) s) \<Longrightarrow>
   (case hi of None \<Rightarrow> True | Some h \<Rightarrow> k \<le> h) \<Longrightarrow>
   matchItems ic its (drop k s) \<noteq> None \<Longrightarrow>
   matchItems ic ((cl, lo, hi) # its) s \<noteq> None"
  unfolding matchItems_Cons_iff by blast

lemma matchHere_single: "matchHere (Regex ic [its]) s = matchItems ic its s"
  by (cases "matchItems ic its s") (simp_all add: matchHere_def)

lemma inClass_False [simp]: "inClass False cl = member cl"
  by (simp add: inClass_def fun_eq_iff)

lemma matchHere_one:
  "matchHere (Regex False [[one cl]]) s =
     (case s of [] \<Rightarrow> None | c # t \<Rightarrow> if member cl c then Some 1 else None)"
  by (cases s) (simp_all add: matchHere_single one_def)

lemma replaceAll_one_delete:
  "replaceAll (Regex False [[one cl]]) (\<lambda>_. []) 0 s = filter (\<lambda>c. \<not> member cl c) s"
  by (induction s) (simp_all add: matchHere_one)

lemma removeControlCharacters_filter:
  "removeControlCharacters s = filter (\<lambda>c. \<not> member controlCharacters c) s"
  by (simp add: removeControlCharacters_def replace_g_def replaceAll_one_delete)

lemma matchHere_WS_PLUS:
  "matchHere WS_PLUS s =
     (case s of [] \<Rightarrow> None
      | c # t \<Rightarrow> if member whitespace c then Some (Suc (length (takeWhile (member whitespace) t)))
                 else None)"
  by (cases s) (simp_all add: matchHere_single WS_PLUS_def Let_def)

lemma replaceAll_skip:
  "k \<le> length s \<Longrightarrow> replaceAll r f k s = replaceAll r f 0 (drop k s)"
proof (induction s arbitrary: k)
  case Nil
  then show ?case by simp
next
  case (Cons c s)
  then show ?case by (cases k) simp_all
qed

lemma collapse_Nil: "replace_g WS_PLUS f [] = []"
  by (simp add: replace_g_def matchHere_WS_PLUS)

lemma collapse_Cons:
  "replace_g WS_PLUS (\<lambda>_. w) (c # s) =
     (if member whitespace c then w @ replace_g WS_PLUS (\<lambda>_. w) (dropWhile (member whitespace) s)
      else c # replace_g WS_PLUS (\<lambda>_. w) s)"
  by (simp add: replace_g_def matchHere_WS_PLUS replaceAll_skip[of "length (takeWhile P s)" s for P]
      length_takeWhile_le dropWhile_eq_drop)

section \<open>Entity extraction\<close>

text \<open>
  Claim C1, as the code behaves: for \<open>"Is PS11752778 compatible with WDT780SAEM1?"\<close>,
  \<open>extractEntities\<close> returns the part number PS11752778 and no model number. The model
  pattern allows at most two letters between the digit groups, and WDT780SAEM1 has four
  (SAEM), so the pattern matches nowhere in WDT780SAEM1; its only match in the message is
  PS11752778, which the filter on the prefix PS removes.
\<close>

theorem extractEntities_example:
  "extractEntities (str ''Is PS11752778 compatible with WDT780SAEM1?'') =
     \<lparr>partNumbers = [str ''PS11752778''], modelNumbers = []\<rparr> \<and>
   match_g modelPattern (str ''Is PS11752778 compatible with WDT780SAEM1?'') =
     Some [str ''PS11752778''] \<and>
   test modelPattern (str ''WDT780SAEM1'') = False"
  by code_simp

section \<open>Intent classification: the winner\<close>

lemma topScore_snoc: "topScore (es @ [y]) = max (topScore es) (snd y)"
  by (induction es) auto

lemma topScore_ge: "e \<in> set es \<Longrightarrow> snd e \<le> topScore es"
  by (induction es) auto

lemma topScore_attained: "es \<noteq> [] \<Longrightarrow> \<exists>e \<in> set es. snd e = topScore es"
proof (induction es)
  case Nil
  then show ?case by simp
next
  case (Cons e es)
  then show ?case by (cases "es = []") (auto simp: max_def)
qed

lemma tiedAtTop_nonempty: "es \<noteq> [] \<Longrightarrow> tiedAtTop es \<noteq> []"
  using topScore_attained[of es] by (auto simp: tiedAtTop_def filter_empty_conv)

lemma snd_last_tied: "es \<noteq> [] \<Longrightarrow> snd (last (tiedAtTop es)) = topScore es"
  using tiedAtTop_nonempty[of es] last_in_set[of "tiedAtTop es"] by (auto simp: tiedAtTop_def)

lemma foldl_pick:
  "foldl (\<lambda>prev current. if snd prev > snd current then prev else current) x xs =
     last (tiedAtTop (x # xs))"
proof (induction xs rule: rev_induct)
  case Nil
  then show ?case by (simp add: tiedAtTop_def)
next
  case (snoc y xs)
  let ?es = "x # xs"
  have top: "snd (last (tiedAtTop ?es)) = topScore ?es"
    by (rule snd_last_tied) simp
  have ne: "tiedAtTop ?es \<noteq> []"
    by (rule tiedAtTop_nonempty) simp
  show ?case
  proof (cases "topScore ?es > snd y")
    case True
    then have "topScore (?es @ [y]) = topScore ?es"
      using topScore_snoc[of ?es y] by simp
    then have "tiedAtTop (?es @ [y]) = tiedAtTop ?es"
      using True by (simp add: tiedAtTop_def)
    with snoc top True show ?thesis by simp
  next
    case False
    then have t: "topScore (?es @ [y]) = snd y"
      using topScore_snoc[of ?es y] by simp
    have "tiedAtTop (?es @ [y]) = filter (\<lambda>e. snd e = snd y) ?es @ [y]"
      unfolding tiedAtTop_def t by simp
    with snoc top False show ?thesis by simp
  qed
qed

lemma reduce_pick:
  "es \<noteq> [] \<Longrightarrow>
   reduce (\<lambda>prev current. if snd prev > snd current then prev else current) es =
     Some (last (tiedAtTop es))"
  by (cases es) (simp_all add: foldl_pick)

text \<open>
  Claim C2, amended: for every message, \<open>classifyIntent\<close> scores the five intents in the
  order product_search, compatibility_check, installation_guide, troubleshooting,
  order_support; the winner has the greatest of the five scores, and it is the last of the
  intents tied at that score in that order (the comparison \<open>prev[1] > current[1]\<close> keeps the
  earlier entry only when it is strictly greater). An intent with the strictly highest score
  is the only one tied at the top, so it wins.
\<close>

theorem classifyIntent_last_of_tied:
  "intent (classifyIntent message) = lastEncountered (scores (classifyIntent message)) \<and>
   map fst (scores (classifyIntent message)) =
     [''product_search'', ''compatibility_check'', ''installation_guide'', ''troubleshooting'',
      ''order_support''] \<and>
   (intent (classifyIntent message), topScore (scores (classifyIntent message)))
     \<in> set (scores (classifyIntent message))"
proof -
  define es where "es =
    [(''product_search'', scoreIntent (split WS_PLUS message) (keywordsOf ''product_search'')),
     (''compatibility_check'',
        scoreIntent (split WS_PLUS message) (keywordsOf ''compatibility_check'')),
     (''installation_guide'',
        scoreIntent (split WS_PLUS message) (keywordsOf ''installation_guide'')),
     (''troubleshooting'', scoreIntent (split WS_PLUS message) (keywordsOf ''troubleshooting'')),
     (''order_support'', scoreIntent (split WS_PLUS message) (keywordsOf ''order_support''))]"
  have ne: "es \<noteq> []"
    by (simp add: es_def)
  have top: "reduce (\<lambda>prev current. if snd prev > snd current then prev else current) es =
               Some (last (tiedAtTop es))"
    using ne by (rule reduce_pick)
  have r: "intent (classifyIntent message) = lastEncountered es"
    "scores (classifyIntent message) = es"
    using top unfolding classifyIntent_def Let_def es_def[symmetric]
    by (simp_all add: lastEncountered_def)
  have "last (tiedAtTop es) \<in> set es"
    using tiedAtTop_nonempty[OF ne] last_in_set[of "tiedAtTop es"] by (auto simp: tiedAtTop_def)
  then have "(lastEncountered es, topScore es) \<in> set es"
    using snd_last_tied[OF ne] by (metis lastEncountered_def prod.collapse)
  with r show ?thesis
    by (simp add: es_def)
qed

text \<open>
  The claim as stated fails on \<open>"hello"\<close>: all five scores are 0, the first of the tied
  intents is product_search, and \<open>classifyIntent\<close> returns order_support.
\<close>

theorem classifyIntent_tie_counterexample:
  "intent (classifyIntent (str ''hello'')) = ''order_support'' \<and>
   firstEncountered (scores (classifyIntent (str ''hello''))) = ''product_search''"
  by code_simp

section \<open>Intent classification: the score of one intent\<close>

lemma scoreStep_points:
  "scoreStep token keyword (a, ms) =
     (a + points token keyword, ms @ (if 0 < points token keyword then [keyword] else []))"
  by (simp add: scoreStep_def points_def)

lemma fold_scoreStep:
  "fold (\<lambda>keyword. scoreStep token keyword) kws (a, ms) =
     (a + sum_list (map (points token) kws),
      ms @ filter (\<lambda>keyword. 0 < points token keyword) kws)"
  by (induction kws arbitrary: a ms) (simp_all add: scoreStep_points)

lemma fold_tokens:
  "fold (\<lambda>token. fold (\<lambda>keyword. scoreStep token keyword) kws) tokens (a, ms) =
     (a + tokenPoints tokens kws, ms @ matchEvents tokens kws)"
  by (induction tokens arbitrary: a ms) (simp_all add: fold_scoreStep tokenPoints_def matchEvents_def)

text \<open>
  Claim C3, amended: for every token sequence and every trigger list, the score of an intent
  is the sum over all tokens and trigger phrases of the points (15 for an exact match, also
  against the phrase with its whitespace removed; otherwise 5 when the phrase contains the
  token and the token is longer than 2), plus 5 times the number of matches, every pair of a
  token and a phrase that scored counting as one match, added exactly when there is more than
  one match, the total clamped to 100.
\<close>

theorem scoreIntent_events:
  "scoreIntent tokens kws =
     min (tokenPoints tokens kws + bonus (length (matchEvents tokens kws))) 100"
  by (simp add: scoreIntent_def fold_tokens bonus_def mult.commute)

text \<open>
  The claim as stated fails on the tokens \<open>order order\<close> and the triggers of order_support:
  one distinct phrase matched, so the claim gives 30 without a bonus; the code counts two
  matches and returns 40.
\<close>

theorem scoreIntent_distinct_counterexample:
  "scoreIntent [str ''order'', str ''order''] (keywordsOf ''order_support'') = 40 \<and>
   claimedScore [str ''order'', str ''order''] (keywordsOf ''order_support'') = 30"
  by code_simp

section \<open>Scope detection: the pattern override\<close>

lemma PART_NUMBER_here: "matchHere PART_NUMBER (str ''PS123456'' @ b) \<noteq> None"
proof -
  let ?s = "str ''PS123456'' @ b"
  have 3: "matchItems True [(digit, 6, None)] (drop 2 ?s) \<noteq> None"
    by (rule matchItems_ConsI[where k = 6])
       (simp_all add: str_def inClass_def member_def digit_def)
  have 2: "matchItems True [([(83, 83)], 1, Some 1), (digit, 6, None)] (drop 1 ?s) \<noteq> None"
    by (rule matchItems_ConsI[where k = 1])
       (use 3 in \<open>simp_all del: matchItems.simps(2) add: str_def inClass_def member_def\<close>)
  have 1: "matchItems True [([(80, 80)], 1, Some 1), ([(83, 83)], 1, Some 1), (digit, 6, None)] ?s
             \<noteq> None"
    by (rule matchItems_ConsI[where k = 1])
       (use 2 in \<open>simp_all del: matchItems.simps(2) add: str_def inClass_def member_def\<close>)
  then show ?thesis
    by (simp del: matchItems.simps(2) add: PART_NUMBER_def lit_def one_def matchHere_single)
qed

lemma detectScope_override:
  "test PART_NUMBER message \<or> test MODEL_NUMBER message \<Longrightarrow>
   detectScope message =
     \<lparr>inScope = True, confidence = 1,
      reason = ''Explicit part or model number pattern detected'',
      category = ''parts_inquiry'',
      score = \<lparr>scoreInScope = 100, scoreOutOfScope = 0, scorePatterns = 100\<rparr>\<rparr>"
  by (simp add: detectScope_def Let_def)

text \<open>
  Claim C4: for every string that contains \<open>PS123456\<close>, \<open>detectScope\<close> returns
  \<open>inScope = true\<close>, confidence 1.0 and category \<open>parts_inquiry\<close>, whatever else the string
  contains.
\<close>

theorem detectScope_PS123456:
  "detectScope (a @ str ''PS123456'' @ b) =
     \<lparr>inScope = True, confidence = 1,
      reason = ''Explicit part or model number pattern detected'',
      category = ''parts_inquiry'',
      score = \<lparr>scoreInScope = 100, scoreOutOfScope = 0, scorePatterns = 100\<rparr>\<rparr>"
  by (rule detectScope_override) (simp add: test_append PART_NUMBER_here)

theorem detectScope_PS123456_witness:
  "detectScope (str ''PS123456 weather joke'') =
     \<lparr>inScope = True, confidence = 1,
      reason = ''Explicit part or model number pattern detected'',
      category = ''parts_inquiry'',
      score = \<lparr>scoreInScope = 100, scoreOutOfScope = 0, scorePatterns = 100\<rparr>\<rparr>"
  using detectScope_PS123456[of "[]" "str '' weather joke''"] by (simp add: str_def)

section \<open>Scope detection: the thresholds\<close>

text \<open>
  Claim C5: for every message that matches neither pattern, scores of 31 in scope and 20 out
  of scope give the in-scope result of the keyword rule (confidence 0.31, the category of
  \<open>categorizeInScopeMessage\<close>), and scores of 30 and 20 give the default result: in scope,
  confidence 0.5, category \<open>general_inquiry\<close>.
\<close>

theorem detectScope_threshold:
  assumes "\<not> test PART_NUMBER message" "\<not> test MODEL_NUMBER message"
  shows "(calculateInScopeScore (split WS_PLUS message) = 31 \<and>
          calculateOutOfScopeScore (split WS_PLUS message) = 20 \<longrightarrow>
          detectScope message =
            \<lparr>inScope = True, confidence = 31 / 100,
             reason = ''Message contains relevant keywords'',
             category = categorizeInScopeMessage (split WS_PLUS message),
             score = \<lparr>scoreInScope = 31, scoreOutOfScope = 20,
                      scorePatterns = detectPatterns message\<rparr>\<rparr>) \<and>
         (calculateInScopeScore (split WS_PLUS message) = 30 \<and>
          calculateOutOfScopeScore (split WS_PLUS message) = 20 \<longrightarrow>
          detectScope message =
            \<lparr>inScope = True, confidence = 1 / 2,
             reason = ''Message appears to be parts-related'',
             category = ''general_inquiry'',
             score = \<lparr>scoreInScope = 30, scoreOutOfScope = 20,
                      scorePatterns = detectPatterns message\<rparr>\<rparr>)"
  using assms by (simp add: detectScope_def Let_def)

text \<open>
  Both pairs of scores occur: \<open>part\<close> scores 13 in scope, every \<open>pa\<close> scores 3 in scope,
  and \<open>joke\<close> scores 20 out of scope.
\<close>

theorem detectScope_threshold_witness:
  "detectScope (str ''joke part pa pa pa pa pa pa'') =
     \<lparr>inScope = True, confidence = 31 / 100,
      reason = ''Message contains relevant keywords'',
      category = ''parts_inquiry'',
      score = \<lparr>scoreInScope = 31, scoreOutOfScope = 20, scorePatterns = 0\<rparr>\<rparr> \<and>
   detectScope (str ''joke pa pa pa pa pa pa pa pa pa pa'') =
     \<lparr>inScope = True, confidence = 1 / 2,
      reason = ''Message appears to be parts-related'',
      category = ''general_inquiry'',
      score = \<lparr>scoreInScope = 30, scoreOutOfScope = 20, scorePatterns = 0\<rparr>\<rparr>"
proof -
  let ?m = "str ''joke part pa pa pa pa pa pa''"
  let ?n = "str ''joke pa pa pa pa pa pa pa pa pa pa''"
  have m: "\<not> test PART_NUMBER ?m" "\<not> test MODEL_NUMBER ?m"
    "calculateInScopeScore (split WS_PLUS ?m) = 31"
    "calculateOutOfScopeScore (split WS_PLUS ?m) = 20"
    "categorizeInScopeMessage (split WS_PLUS ?m) = ''parts_inquiry''"
    "detectPatterns ?m = 0"
    by code_simp+
  have n: "\<not> test PART_NUMBER ?n" "\<not> test MODEL_NUMBER ?n"
    "calculateInScopeScore (split WS_PLUS ?n) = 30"
    "calculateOutOfScopeScore (split WS_PLUS ?n) = 20"
    "detectPatterns ?n = 0"
    by code_simp+
  show ?thesis
    using detectScope_threshold[OF m(1,2)] detectScope_threshold[OF n(1,2)] m(3-6) n(3-5)
    by simp
qed

section \<open>Scope detection: an out-of-scope message\<close>

text \<open>
  Claim C6: on \<open>"tell me a joke about the weather"\<close>, \<open>detectScope\<close> returns
  \<open>inScope = false\<close> and category \<open>out_of_scope\<close>; the out-of-scope score, 50, exceeds the
  in-scope score, 12, by more than 20.
\<close>

theorem detectScope_joke_weather:
  "detectScope (str ''tell me a joke about the weather'') =
     \<lparr>inScope = False, confidence = 1 / 2,
      reason = ''Message contains out-of-scope keywords'',
      category = ''out_of_scope'',
      score = \<lparr>scoreInScope = 12, scoreOutOfScope = 50, scorePatterns = 0\<rparr>\<rparr>"
  by code_simp

section \<open>Intent classification: an installation question\<close>

text \<open>
  Claim C7: on \<open>"how do i install PS11752778"\<close>, \<open>classifyIntent\<close> returns the intent
  \<open>installation_guide\<close> with the part number PS11752778 in its context; the same holds for
  the message in lower case, whose part number is put in upper case.
\<close>

theorem classifyIntent_install:
  "classifyIntent (str ''how do i install PS11752778'') =
     \<lparr>intent = ''installation_guide'', intentConfidence = 1 / 2,
      keywordList = map str [''how to'', ''how do i'', ''install'', ''help me install''],
      intentContext =
        Some \<lparr>partNumber = Some (str ''PS11752778''), modelNumber = None,
              applianceType = None\<rparr>,
      scores =
        [(''product_search'', 5), (''compatibility_check'', 0), (''installation_guide'', 50),
         (''troubleshooting'', 0), (''order_support'', 0)]\<rparr> \<and>
   intent (classifyIntent (str ''how do i install ps11752778'')) = ''installation_guide'' \<and>
   intentContext (classifyIntent (str ''how do i install ps11752778'')) =
     Some \<lparr>partNumber = Some (str ''PS11752778''), modelNumber = None, applianceType = None\<rparr>"
  by code_simp

section \<open>Sanitizing twice\<close>

lemma collapsed_Cons_other: "\<not> member whitespace c \<Longrightarrow> collapsed (c # u) = collapsed u"
  by (cases u) simp_all

lemma collapsed_Cons_space:
  "collapsed (32 # u) \<longleftrightarrow> (u = [] \<or> \<not> member whitespace (hd u)) \<and> collapsed u"
  by (cases u) (auto simp: member_def whitespace_def)

lemma collapsed_replace: "collapsed (replace_g WS_PLUS (\<lambda>_. [32]) s)"
proof (induction s rule: length_induct)
  case (1 s)
  show ?case
  proof (cases s)
    case Nil
    then show ?thesis by (simp add: collapse_Nil)
  next
    case (Cons c t)
    show ?thesis
    proof (cases "member whitespace c")
      case True
      let ?u = "dropWhile (member whitespace) t"
      have "length ?u < length s"
        using Cons length_dropWhile_le[of "member whitespace" t] by simp
      with 1 have ih: "collapsed (replace_g WS_PLUS (\<lambda>_. [32]) ?u)" by blast
      have "replace_g WS_PLUS (\<lambda>_. [32]) ?u = [] \<or>
            \<not> member whitespace (hd (replace_g WS_PLUS (\<lambda>_. [32]) ?u))"
      proof (cases ?u)
        case Nil
        then show ?thesis by (simp only: collapse_Nil simp_thms)
      next
        case (Cons d v)
        then have "\<not> member whitespace d"
          using hd_dropWhile[of "member whitespace" t] by simp
        with Cons show ?thesis by (simp add: collapse_Cons)
      qed
      with ih True Cons show ?thesis
        by (simp add: collapse_Cons collapsed_Cons_space)
    next
      case False
      from 1 Cons have "collapsed (replace_g WS_PLUS (\<lambda>_. [32]) t)" by simp
      with False Cons show ?thesis
        by (simp add: collapse_Cons collapsed_Cons_other)
    qed
  qed
qed

lemma replace_collapsed: "collapsed s \<Longrightarrow> replace_g WS_PLUS (\<lambda>_. [32]) s = s"
proof (induction s rule: collapsed.induct)
  case 1
  then show ?case by (simp add: collapse_Nil)
next
  case (2 c)
  then show ?case by (simp add: collapse_Cons collapse_Nil split: if_splits)
next
  case (3 c d s)
  then show ?case by (simp add: collapse_Cons split: if_splits)
qed

lemma collapsed_suffix: "collapsed (a @ b) \<Longrightarrow> collapsed b"
proof (induction a)
  case Nil
  then show ?case by simp
next
  case (Cons c a)
  then show ?case by (cases "a @ b") (simp_all split: if_splits)
qed

lemma collapsed_prefix: "collapsed (a @ b) \<Longrightarrow> collapsed a"
proof (induction a rule: collapsed.induct)
  case 1
  then show ?case by simp
next
  case (2 c)
  then show ?case by (cases b) (simp_all split: if_splits)
next
  case (3 c d s)
  then show ?case by (simp split: if_splits)
qed

lemma trim_decompose:
  "\<exists>a b. s = a @ trim s @ b"
proof -
  let ?t = "dropWhile (member whitespace) s"
  have "s = takeWhile (member whitespace) s @ ?t" by simp
  moreover have "rev ?t = takeWhile (member whitespace) (rev ?t) @ dropWhile (member whitespace) (rev ?t)"
    by simp
  then have "?t = trim s @ rev (takeWhile (member whitespace) (rev ?t))"
    unfolding trim_def by (metis rev_append rev_rev_ident)
  ultimately show ?thesis by metis
qed

lemma collapsed_trim: "collapsed s \<Longrightarrow> collapsed (trim s)"
  using trim_decompose[of s] collapsed_suffix collapsed_prefix by metis

lemma set_trim: "set (trim s) \<subseteq> set s"
  using trim_decompose[of s] by (metis Un_upper1 Un_upper2 set_append subset_trans)

lemma set_replace: "set (replace_g WS_PLUS (\<lambda>_. [32]) s) \<subseteq> insert 32 (set s)"
proof (induction s rule: length_induct)
  case (1 s)
  show ?case
  proof (cases s)
    case Nil
    then show ?thesis by (simp add: collapse_Nil)
  next
    case (Cons c t)
    let ?u = "dropWhile (member whitespace) t"
    have "length ?u < length s"
      using Cons length_dropWhile_le[of "member whitespace" t] by simp
    with 1 have "set (replace_g WS_PLUS (\<lambda>_. [32]) ?u) \<subseteq> insert 32 (set ?u)" by blast
    moreover have "set ?u \<subseteq> set t" by (auto dest: set_dropWhileD)
    moreover from 1 Cons have "set (replace_g WS_PLUS (\<lambda>_. [32]) t) \<subseteq> insert 32 (set t)" by simp
    ultimately show ?thesis
      using Cons by (auto simp: collapse_Cons)
  qed
qed

lemma dropWhile_id: "xs = [] \<or> \<not> P (hd xs) \<Longrightarrow> dropWhile P xs = xs"
  by (cases xs) auto

lemma trim_fixed:
  assumes "s = [] \<or> (\<not> member whitespace (hd s) \<and> \<not> member whitespace (last s))"
  shows "trim s = s"
proof (cases "s = []")
  case True
  then show ?thesis by (simp add: trim_def)
next
  case False
  with assms have "dropWhile (member whitespace) s = s"
    by (simp add: dropWhile_id)
  moreover from False assms have "dropWhile (member whitespace) (rev s) = rev s"
    by (intro dropWhile_id) (simp add: hd_rev)
  ultimately show ?thesis by (simp add: trim_def)
qed

lemma trim_trimmed:
  "trim s = [] \<or> (\<not> member whitespace (hd (trim s)) \<and> \<not> member whitespace (last (trim s)))"
proof (cases "trim s = []")
  case True
  then show ?thesis by simp
next
  case False
  let ?t = "dropWhile (member whitespace) s"
  let ?v = "dropWhile (member whitespace) (rev ?t)"
  from False have v: "?v \<noteq> []" by (simp add: trim_def)
  have t: "?t \<noteq> []"
  proof
    assume "?t = []"
    then have "?v = []" by (simp only: rev.simps dropWhile.simps)
    with v show False by simp
  qed
  have "\<not> member whitespace (hd ?v)" using v by (rule hd_dropWhile)
  then have l: "\<not> member whitespace (last (trim s))"
    using v by (simp add: trim_def last_rev)
  have "rev ?t = takeWhile (member whitespace) (rev ?t) @ ?v" by simp
  then have "last (rev ?t) = last ?v" using v by (metis last_appendR)
  then have "hd (trim s) = hd ?t"
    using v t by (simp add: trim_def hd_rev last_rev)
  moreover have "\<not> member whitespace (hd ?t)" using t by (rule hd_dropWhile)
  ultimately show ?thesis using l by simp
qed

lemma trim_idem: "trim (trim s) = trim s"
  by (rule trim_fixed) (rule trim_trimmed)

lemma space_not_control: "\<not> member controlCharacters 32"
  by (simp add: member_def controlCharacters_def)

lemma cleaned_expand:
  "sanitizeMessage (JString x) = Inr r \<Longrightarrow>
   cleaned r = trim (replace_g WS_PLUS (\<lambda>_. [32]) (trim (removeControlCharacters x)))"
  by (auto simp: Let_def normalizeWhitespace_def trimWhitespace_def str_def)

lemma cleaned_fixed:
  assumes y: "y = trim (replace_g WS_PLUS (\<lambda>_. [32]) (trim (removeControlCharacters x)))"
  shows "trim (replace_g WS_PLUS (\<lambda>_. [32]) (trim (removeControlCharacters y))) = y"
proof -
  let ?z = "trim (removeControlCharacters x)"
  have "set y \<subseteq> insert 32 (set (removeControlCharacters x))"
    unfolding y using set_trim[of "replace_g WS_PLUS (\<lambda>_. [32]) ?z"] set_replace[of ?z]
      set_trim[of "removeControlCharacters x"] by blast
  then have "\<forall>c \<in> set y. \<not> member controlCharacters c"
    using space_not_control by (auto simp: removeControlCharacters_filter)
  then have 1: "removeControlCharacters y = y"
    by (simp add: removeControlCharacters_filter)
  have 2: "trim y = y"
    unfolding y by (rule trim_idem)
  have "collapsed y"
    unfolding y by (rule collapsed_trim) (rule collapsed_replace)
  then have 3: "replace_g WS_PLUS (\<lambda>_. [32]) y = y"
    by (rule replace_collapsed)
  show ?thesis by (simp add: 1 2 3)
qed

text \<open>
  Claim C8: for every string \<open>x\<close>, \<open>sanitizeMessage\<close> returns a record, it returns one
  again on the \<open>cleaned\<close> field of that record, and the second \<open>cleaned\<close> field is the
  first.
\<close>

theorem sanitizeMessage_idempotent:
  "\<exists>r r'. sanitizeMessage (JString x) = Inr r \<and>
           sanitizeMessage (JString (cleaned r)) = Inr r' \<and> cleaned r' = cleaned r"
proof -
  obtain r where r: "sanitizeMessage (JString x) = Inr r"
    by (simp add: Let_def)
  obtain r' where r': "sanitizeMessage (JString (cleaned r)) = Inr r'"
    by (simp add: Let_def)
  have "cleaned r' = cleaned r"
    using cleaned_expand[OF r] cleaned_expand[OF r'] cleaned_fixed[of "cleaned r" x] by simp
  with r r' show ?thesis by blast
qed

text \<open>
  An instance: the text \<open>a b\<close> between spaces, with a NUL and a tab inside, is cleaned to
  \<open>a b\<close>, which is cleaned to itself.
\<close>

theorem sanitizeMessage_idempotent_witness:
  "\<exists>r'. sanitizeMessage (JString (str ''a b'')) = Inr r' \<and> cleaned r' = str ''a b''"
proof -
  let ?x = "[32, 32, 97, 0, 32, 9, 98, 32]"
  have c: "sanitizeMessage (JString ?x) =
             Inr \<lparr>original = ?x, cleaned = str ''a b'', sanitized = str ''a b'',
                  lowercase = str ''a b''\<rparr>"
    by code_simp
  from sanitizeMessage_idempotent[of ?x] show ?thesis
    unfolding c by auto
qed

section \<open>When sanitizing fails\<close>

text \<open>
  Claim C9: \<open>sanitizeMessage\<close> raises its error exactly for the arguments that are not
  strings, and for every string, whatever it contains, it returns a record (whose \<open>original\<close>
  field is the string).
\<close>

theorem sanitizeMessage_throws_iff:
  "(sanitizeMessage v = Inl InvalidInput) = (\<nexists>s. v = JString s) \<and>
   (\<exists>r. sanitizeMessage (JString s) = Inr r \<and> original r = s)"
  by (cases v) (simp_all add: Let_def)

section \<open>Lower-case model numbers\<close>

lemma MODEL_NUMBER_here:
  assumes l: "1 \<le> length l" "length l \<le> 3" "list_all (\<lambda>c. 97 \<le> c \<and> c \<le> 122) l"
    and d: "5 \<le> length d" "list_all (\<lambda>c. 48 \<le> c \<and> c \<le> 57) d"
  shows "matchHere MODEL_NUMBER (l @ d @ b) \<noteq> None"
proof -
  have L: "\<forall>c \<in> set l. inClass True upperAZ c"
    using l(3) by (auto simp: list_all_iff inClass_def member_def upperAZ_def toUpperUnit_def)
  have D: "\<forall>c \<in> set xs. inClass True digit c" if "set xs \<subseteq> set d" for xs
    using d(2) that by (auto simp: list_all_iff inClass_def member_def digit_def)
  have d3: "d = take 3 d @ drop 3 d" by simp
  have 6: "matchItems True [(digit, 0, None)] t \<noteq> None" for t
    by (rule matchItems_ConsI[where k = 0]) simp_all
  have 5: "matchItems True [(upperAZ, 0, Some 1), (digit, 0, None)] t \<noteq> None" for t
    by (rule matchItems_ConsI[where k = 0]) (use 6 in \<open>simp_all del: matchItems.simps(2)\<close>)
  have 4: "matchItems True [(digit, 1, None), (upperAZ, 0, Some 1), (digit, 0, None)]
             (drop 3 d @ b) \<noteq> None"
  proof (rule matchItems_ConsI[where k = 1])
    show "1 \<le> length (takeWhile (inClass True digit) (drop 3 d @ b))"
      by (rule length_takeWhile_append_ge) (use d(1) D[of "drop 3 d"] in \<open>auto dest: in_set_dropD\<close>)
  qed (use 5 in \<open>simp_all del: matchItems.simps(2)\<close>)
  have 3: "matchItems True [(upperAZ, 0, Some 2), (digit, 1, None), (upperAZ, 0, Some 1),
             (digit, 0, None)] (drop 3 d @ b) \<noteq> None"
    by (rule matchItems_ConsI[where k = 0]) (use 4 in \<open>simp_all del: matchItems.simps(2)\<close>)
  have 2: "matchItems True [(digit, 3, Some 4), (upperAZ, 0, Some 2), (digit, 1, None),
             (upperAZ, 0, Some 1), (digit, 0, None)] (d @ b) \<noteq> None"
  proof (rule matchItems_ConsI[where k = 3])
    show "3 \<le> length (takeWhile (inClass True digit) (d @ b))"
      by (rule length_takeWhile_append_ge) (use d(1) D[of d] in auto)
    show "matchItems True [(upperAZ, 0, Some 2), (digit, 1, None), (upperAZ, 0, Some 1),
             (digit, 0, None)] (drop 3 (d @ b)) \<noteq> None"
      using 3 d(1) by (simp del: matchItems.simps(2))
  qed simp_all
  have 1: "matchItems True modelItems (l @ d @ b) \<noteq> None"
    unfolding modelItems_def
  proof (rule matchItems_ConsI[where k = "length l"])
    show "length l \<le> length (takeWhile (inClass True upperAZ) (l @ d @ b))"
      by (rule length_takeWhile_append_ge) (use L in auto)
    show "matchItems True [(digit, 3, Some 4), (upperAZ, 0, Some 2), (digit, 1, None),
             (upperAZ, 0, Some 1), (digit, 0, None)] (drop (length l) (l @ d @ b)) \<noteq> None"
      using 2 by (simp del: matchItems.simps(2))
  qed (use l in simp_all)
  then show ?thesis
    by (simp add: MODEL_NUMBER_def matchHere_single)
qed

lemma modelPattern_needs_upper:
  assumes "list_all (\<lambda>c. \<not> (65 \<le> c \<and> c \<le> 90)) s"
  shows "\<not> test modelPattern s"
proof
  assume "test modelPattern s"
  then obtain k where k: "k \<le> length s" "matchHere modelPattern (drop k s) \<noteq> None"
    unfolding test_iff by blast
  then have "matchItems False modelItems (drop k s) \<noteq> None"
    by (simp add: modelPattern_def matchHere_single)
  then have "1 \<le> length (takeWhile (inClass False upperAZ) (drop k s))"
    unfolding modelItems_def matchItems_Cons_iff by auto
  then obtain c t where ct: "drop k s = c # t" "inClass False upperAZ c"
    by (cases "drop k s") (auto split: if_splits)
  then have "c \<in> set s"
    by (metis in_set_dropD list.set_intros(1))
  with assms ct(2) show False
    by (auto simp: list_all_iff inClass_def member_def upperAZ_def)
qed

lemma uniq_Nil_iff: "uniq xs = [] \<longleftrightarrow> xs = []"
  by (simp add: uniq_def)

lemma modelNumbers_Nil:
  "list_all (\<lambda>c. \<not> (65 \<le> c \<and> c \<le> 90)) s \<Longrightarrow> modelNumbers (extractEntities s) = []"
  using modelPattern_needs_upper[of s] matchAll_Nil_iff[of modelPattern s]
  by (simp add: extractEntities_def match_g_def uniq_def)

lemma partNumbers_Nil_iff: "partNumbers (extractEntities s) = [] \<longleftrightarrow> \<not> test PART_NUMBER s"
  using matchAll_Nil_iff[of PART_NUMBER s]
  by (auto simp: extractEntities_def match_g_def uniq_Nil_iff Let_def split: list.splits)

text \<open>
  Claim C10, amended: for every message without upper-case letters that contains one to three
  lower-case letters followed at once by at least five digits, \<open>detectScope\<close> returns
  \<open>inScope = true\<close>, confidence 1.0 and category \<open>parts_inquiry\<close>, and \<open>extractEntities\<close>
  returns no model number; it returns no part number exactly when the message does not match
  the part number pattern, which \<open>extractEntities\<close> too applies without regard to case.
\<close>

theorem lowercase_model_override:
  assumes "1 \<le> length l" "length l \<le> 3" "list_all (\<lambda>c. 97 \<le> c \<and> c \<le> 122) l"
    and "5 \<le> length d" "list_all (\<lambda>c. 48 \<le> c \<and> c \<le> 57) d"
    and "list_all (\<lambda>c. \<not> (65 \<le> c \<and> c \<le> 90)) (a @ l @ d @ b)"
  shows "detectScope (a @ l @ d @ b) =
           \<lparr>inScope = True, confidence = 1,
            reason = ''Explicit part or model number pattern detected'',
            category = ''parts_inquiry'',
            score = \<lparr>scoreInScope = 100, scoreOutOfScope = 0, scorePatterns = 100\<rparr>\<rparr> \<and>
         modelNumbers (extractEntities (a @ l @ d @ b)) = [] \<and>
         (partNumbers (extractEntities (a @ l @ d @ b)) = [] \<longleftrightarrow>
            \<not> test PART_NUMBER (a @ l @ d @ b))"
proof -
  have "test MODEL_NUMBER (a @ l @ d @ b)"
    by (rule test_append) (rule MODEL_NUMBER_here[OF assms(1-5)])
  then show ?thesis
    using assms(6) by (simp add: detectScope_override modelNumbers_Nil partNumbers_Nil_iff)
qed

theorem lowercase_model_override_witness:
  "detectScope (str ''abc12345'') =
           \<lparr>inScope = True, confidence = 1,
            reason = ''Explicit part or model number pattern detected'',
            category = ''parts_inquiry'',
            score = \<lparr>scoreInScope = 100, scoreOutOfScope = 0, scorePatterns = 100\<rparr>\<rparr> \<and>
   extractEntities (str ''abc12345'') = \<lparr>partNumbers = [], modelNumbers = []\<rparr>"
proof -
  have e: "str ''abc12345'' = [] @ str ''abc'' @ str ''12345'' @ []"
    by (simp add: str_def)
  have h: "1 \<le> length (str ''abc'')" "length (str ''abc'') \<le> 3"
    "list_all (\<lambda>c. 97 \<le> c \<and> c \<le> 122) (str ''abc'')"
    "5 \<le> length (str ''12345'')" "list_all (\<lambda>c. 48 \<le> c \<and> c \<le> 57) (str ''12345'')"
    "list_all (\<lambda>c. \<not> (65 \<le> c \<and> c \<le> 90)) ([] @ str ''abc'' @ str ''12345'' @ [])"
    by (simp_all add: str_def)
  have p: "\<not> test PART_NUMBER (str ''abc12345'')"
    by code_simp
  show ?thesis
    using lowercase_model_override[OF h] p unfolding e[symmetric]
    by (cases "extractEntities (str ''abc12345'')") simp
qed

text \<open>
  The claim as stated fails on \<open>ps123456\<close>: two lower-case letters followed by six digits,
  from which \<open>extractEntities\<close> returns the part number PS123456.
\<close>

theorem lowercase_part_counterexample:
  "str ''ps123456'' = [] @ str ''ps'' @ str ''123456'' @ [] \<and>
   1 \<le> length (str ''ps'') \<and> length (str ''ps'') \<le> 3 \<and>
   list_all (\<lambda>c. 97 \<le> c \<and> c \<le> 122) (str ''ps'') \<and>
   5 \<le> length (str ''123456'') \<and> list_all (\<lambda>c. 48 \<le> c \<and> c \<le> 57) (str ''123456'') \<and>
   list_all (\<lambda>c. \<not> (65 \<le> c \<and> c \<le> 90)) (str ''ps123456'') \<and>
   partNumbers (extractEntities (str ''ps123456'')) = [str ''PS123456'']"
  by code_simp

end
